theory Spec2Isabelle
  imports Complex_Main "HOL-Library.AList" "HOL-Library.Multiset"
    "HOL-Library.Char_ord" "HOL-Library.List_Lexorder" "HOL-Library.Product_Lexorder"
begin

section \<open>Data model (models.py)\<close>

text \<open>
  Python integers are unbounded and become \<open>int\<close>. Python floats are modelled by exact
  rationals (\<open>rat\<close>): every float operation of the scoring engine is read as the exact
  operation on the numbers involved. Timestamps (\<open>datetime\<close>) are integers on a common
  time line. Strings are \<open>string\<close>. The models validate every \<open>risk_score\<close> field
  to lie between 0 and 100; the records here do not carry the bound, and a property that
  needs it assumes it.
\<close>

datatype SeverityLevel = CRITICAL | HIGH | MEDIUM | LOW | INFO

text \<open>\<open>SeverityLevel\<close> is a \<open>str\<close> enumeration: each member is the string given here, and
  comparing two members compares these strings.\<close>

fun severity_value :: "SeverityLevel \<Rightarrow> string" where
  "severity_value CRITICAL = ''critical''"
| "severity_value HIGH = ''high''"
| "severity_value MEDIUM = ''medium''"
| "severity_value LOW = ''low''"
| "severity_value INFO = ''info''"

text \<open>Iterating over the enumeration class yields the members in definition order.\<close>

definition SeverityLevel_members :: "SeverityLevel list" where
  "SeverityLevel_members = [CRITICAL, HIGH, MEDIUM, LOW, INFO]"

datatype ResourceType =
    STORAGE_ACCOUNT | NETWORK_SECURITY_GROUP | KEY_VAULT
  | VIRTUAL_MACHINE | DISK | DATABRICKS_WORKSPACE

record SecurityFinding =
  finding_id :: string
  resource_id :: string
  resource_name :: string
  resource_type :: ResourceType
  subscription_id :: string
  resource_group :: string
  location :: string
  title :: string
  description :: string
  severity :: SeverityLevel
  recommendation :: string
  risk_score :: int
  metadata :: "(string \<times> string) list"
  timestamp :: int

text \<open>A Python \<open>dict\<close> is an association list with distinct keys in insertion order;
  \<open>AList.update\<close> overwrites the value of a present key in place and appends an absent
  key, as assignment to a dict entry does.\<close>

type_synonym ('k, 'v) dict = "('k \<times> 'v) list"

record ScanResult =
  scan_subscription_id :: string
  subscription_name :: "string option"
  scan_timestamp :: int
  total_resources_scanned :: int
  total_findings :: int
  findings_by_severity :: "(SeverityLevel, int) dict"
  findings :: "SecurityFinding list"
  scan_risk_score :: int
  scan_duration_seconds :: "rat option"

record ScanRequest =
  request_subscription_id :: "string option"
  resource_types :: "ResourceType list option"
  severity_threshold :: SeverityLevel

section \<open>Python built-ins used by the engine\<close>

text \<open>\<open>dict.get(k, default)\<close>.\<close>

definition dict_get :: "('k, 'v) dict \<Rightarrow> 'k \<Rightarrow> 'v \<Rightarrow> 'v" where
  "dict_get d k dflt = (case map_of d k of None \<Rightarrow> dflt | Some v \<Rightarrow> v)"

text \<open>\<open>collections.Counter(iterable)\<close>: one entry per distinct element, in order of first
  occurrence, holding the number of occurrences.\<close>

definition counter_add :: "'a \<Rightarrow> ('a, int) dict \<Rightarrow> ('a, int) dict" where
  "counter_add x d = AList.update x (dict_get d x 0 + 1) d"

definition Counter :: "'a list \<Rightarrow> ('a, int) dict" where
  "Counter xs = fold counter_add xs []"

text \<open>\<open>dict.update(other)\<close>: assigns every entry of \<open>other\<close>, in its order.\<close>

definition dict_update :: "('k, 'v) dict \<Rightarrow> ('k, 'v) dict \<Rightarrow> ('k, 'v) dict" where
  "dict_update d other = fold (\<lambda>(k, v). AList.update k v) other d"

text \<open>\<open>int(x)\<close> on a float truncates towards zero.\<close>

definition py_int :: "rat \<Rightarrow> int" where
  "py_int x = (if 0 \<le> x then \<lfloor>x\<rfloor> else \<lceil>x\<rceil>)"

text \<open>\<open>round(x, 2)\<close>: the nearest multiple of 1/100, a tie going to the even one.\<close>

definition round_half_even :: "rat \<Rightarrow> int" where
  "round_half_even y =
     (let f = \<lfloor>y\<rfloor>; r = y - of_int f
      in if r < 1 / 2 then f
         else if 1 / 2 < r then f + 1
         else if even f then f else f + 1)"

definition py_round2 :: "rat \<Rightarrow> rat" where
  "py_round2 x = of_int (round_half_even (x * 100)) / 100"

text \<open>\<open>max(iterable)\<close> over \<open>SeverityLevel\<close> members: the members are strings, so the
  comparison is that of their string values; the first of several maximal items is kept.
  The engine calls it on a non-empty list only.\<close>

fun max_severity :: "SeverityLevel \<Rightarrow> SeverityLevel list \<Rightarrow> SeverityLevel" where
  "max_severity m [] = m"
| "max_severity m (x # xs) =
     max_severity (if severity_value m < severity_value x then x else m) xs"

text \<open>\<open>sorted(xs, key=k)\<close> is a stable ascending sort: \<open>sort_key\<close> (stable insertion
  sort). With \<open>reverse=True\<close> the order is descending and items with equal keys still keep
  their input order.\<close>

definition sorted_reverse :: "('a \<Rightarrow> int) \<Rightarrow> 'a list \<Rightarrow> 'a list" where
  "sorted_reverse k xs = sort_key (\<lambda>x. - k x) xs"

section \<open>Risk scoring engine (risk_scoring.py)\<close>

fun severity_weights :: "SeverityLevel \<Rightarrow> int" where
  "severity_weights CRITICAL = 100"
| "severity_weights HIGH = 75"
| "severity_weights MEDIUM = 50"
| "severity_weights LOW = 25"
| "severity_weights INFO = 10"

text \<open>The loop over \<open>severity_counts.items()\<close>, on the pair (weighted_sum, total_weight).\<close>

definition weight_step :: "SeverityLevel \<times> int \<Rightarrow> int \<times> int \<Rightarrow> int \<times> int" where
  "weight_step = (\<lambda>(s, c) (weighted_sum, total_weight).
     (weighted_sum + severity_weights s * c, total_weight + severity_weights s))"

definition calculate_overall_risk_score :: "SecurityFinding list \<Rightarrow> int" where
  "calculate_overall_risk_score fs =
     (if fs = [] then 0
      else
        let severity_counts = Counter (map severity fs);
            (weighted_sum, total_weight) = fold weight_step severity_counts (0, 0)
        in if total_weight = 0 then 0
           else
             let base_score = (of_int weighted_sum / of_int total_weight) * (100 :: rat);
                 density_factor = min (3 / 2) (1 + of_nat (length fs) / 100);
                 final_score = min 100 (base_score * density_factor)
             in py_int final_score)"

definition calculate_resource_risk_score :: "SecurityFinding list \<Rightarrow> int" where
  "calculate_resource_risk_score resource_findings =
     (case map severity resource_findings of
        [] \<Rightarrow> 0
      | s # ss \<Rightarrow>
          let highest_severity = max_severity s ss;
              base_score = severity_weights highest_severity;
              finding_count_factor =
                min (3 / 2) (1 + of_nat (length resource_findings) / (10 :: rat));
              final_score = min 100 (of_int base_score * finding_count_factor)
          in py_int final_score)"

definition get_findings_by_severity :: "SecurityFinding list \<Rightarrow> (SeverityLevel, int) dict" where
  "get_findings_by_severity fs =
     (let severity_counts = Counter (map severity fs);
          result = map (\<lambda>s. (s, 0)) SeverityLevel_members
      in dict_update result severity_counts)"

text \<open>The returned dict of \<open>calculate_subscription_risk_trend\<close>: the keys
  \<open>current_score\<close> and \<open>previous_score\<close> are present only when two scans were compared.
  The two subscripts of \<open>recent_scans\<close> are in range, the list having at least two
  items there.\<close>

record RiskTrend =
  trend :: rat
  direction :: string
  current_score :: "int option"
  previous_score :: "int option"

definition calculate_subscription_risk_trend :: "ScanResult list \<Rightarrow> RiskTrend" where
  "calculate_subscription_risk_trend scan_results =
     (if length scan_results < 2
      then \<lparr>trend = 0, direction = ''stable'', current_score = None, previous_score = None\<rparr>
      else
        let recent_scans = take 2 (sorted_reverse scan_timestamp scan_results);
            current = scan_risk_score (recent_scans ! 0);
            previous = scan_risk_score (recent_scans ! 1)
        in if previous = 0
           then \<lparr>trend = 0, direction = ''stable'',
                 current_score = Some current, previous_score = Some previous\<rparr>
           else
             let change = (of_int (current - previous) / of_int previous) * 100;
                 t = py_round2 change;
                 d = (if 5 < t
                        then (if current < previous then ''improving'' else ''degrading'')
                      else if t < - 5
                        then (if previous < current then ''degrading'' else ''improving'')
                      else ''stable'')
             in \<lparr>trend = t, direction = d,
                 current_score = Some current, previous_score = Some previous\<rparr>)"

definition priority_order :: "(SeverityLevel, int) dict" where
  "priority_order = [(CRITICAL, 0), (HIGH, 1), (MEDIUM, 2), (LOW, 3), (INFO, 4)]"

text \<open>The sort key of \<open>prioritize_findings\<close>; every severity is a key of the table, so
  the subscript never fails.\<close>

definition priority_key :: "SecurityFinding \<Rightarrow> int \<times> int" where
  "priority_key f = (dict_get priority_order (severity f) 0, - risk_score f)"

definition prioritize_findings :: "SecurityFinding list \<Rightarrow> SecurityFinding list" where
  "prioritize_findings fs = sort_key priority_key fs"

section \<open>Scanner engine (scanner_engine.py)\<close>

text \<open>Everything the engine raises or catches is an \<open>Exception\<close> with a message.\<close>

datatype error = Exception string

record subscription =
  sub_id :: string
  display_name :: "string option"

text \<open>
  The collaborators of one scan: the access check and the subscription directory of the
  authentication manager, the outcome of each scanner's \<open>scan()\<close> for a subscription
  (the findings it returns, or the exception it raises), the clock reading stamped on the
  result and the elapsed wall-clock time.
\<close>

record environment =
  validate_access :: "string \<Rightarrow> bool"
  list_subscriptions :: "error + subscription list"
  scanner_scan :: "ResourceType \<Rightarrow> string \<Rightarrow> error + SecurityFinding list"
  utcnow :: int
  elapsed :: rat

text \<open>The keys of the registry \<open>self.scanners\<close>, in insertion order; the scanner registered
  under a key is the one whose outcome \<open>scanner_scan\<close> gives for that key.\<close>

definition scanners :: "ResourceType list" where
  "scanners =
     [STORAGE_ACCOUNT, NETWORK_SECURITY_GROUP, KEY_VAULT, VIRTUAL_MACHINE, DATABRICKS_WORKSPACE]"

text \<open>\<open>_get_subscription_details\<close>: the first listed subscription with the given id; the
  empty dict (\<open>None\<close>) when there is none or when listing raises.\<close>

definition get_subscription_details :: "environment \<Rightarrow> string \<Rightarrow> subscription option" where
  "get_subscription_details env sid =
     (case list_subscriptions env of
        Inl e \<Rightarrow> None
      | Inr subs \<Rightarrow> find (\<lambda>sub. sub_id sub = sid) subs)"

text \<open>\<open>_get_scanners_to_run\<close>: the keys of the dict to iterate. The dict comprehension
  keeps each requested and registered type once, at its first position.\<close>

definition get_scanners_to_run :: "ScanRequest option \<Rightarrow> ResourceType list" where
  "get_scanners_to_run scan_request =
     (case scan_request of
        None \<Rightarrow> scanners
      | Some r \<Rightarrow>
          (case resource_types r of
             None \<Rightarrow> scanners
           | Some rts \<Rightarrow>
               if rts = [] then scanners
               else map fst
                      (fold (\<lambda>rt. AList.update rt ())
                         (filter (\<lambda>rt. rt \<in> set scanners) rts) [])))"

definition severity_order :: "(SeverityLevel, int) dict" where
  "severity_order = [(INFO, 0), (LOW, 1), (MEDIUM, 2), (HIGH, 3), (CRITICAL, 4)]"

definition filter_findings_by_severity ::
  "SecurityFinding list \<Rightarrow> SeverityLevel \<Rightarrow> SecurityFinding list" where
  "filter_findings_by_severity fs min_severity =
     (let min_level = dict_get severity_order min_severity 0
      in filter (\<lambda>finding. min_level \<le> dict_get severity_order (severity finding) 0) fs)"

text \<open>
  One iteration of the scanner loop, on the state (all_findings, total_resources_scanned)
  together with the list of scanners invoked so far. A scanner that raises leaves the two
  variables as they were.
\<close>

definition run_scanner ::
  "environment \<Rightarrow> string \<Rightarrow> ResourceType
     \<Rightarrow> SecurityFinding list \<times> int \<times> ResourceType list
     \<Rightarrow> SecurityFinding list \<times> int \<times> ResourceType list" where
  "run_scanner env sid rt = (\<lambda>(all_findings, total, invoked).
     (case scanner_scan env rt sid of
        Inl e \<Rightarrow> (all_findings, total, invoked @ [rt])
      | Inr fs \<Rightarrow>
          (all_findings @ fs,
           total + int (length (remdups (map resource_id fs))),
           invoked @ [rt])))"

text \<open>The severity filter is applied when a request is given and its threshold is truthy,
  that is, a non-empty string.\<close>

definition apply_threshold ::
  "ScanRequest option \<Rightarrow> SecurityFinding list \<Rightarrow> SecurityFinding list" where
  "apply_threshold scan_request all_findings =
     (case scan_request of
        None \<Rightarrow> all_findings
      | Some r \<Rightarrow>
          if severity_value (severity_threshold r) \<noteq> []
          then filter_findings_by_severity all_findings (severity_threshold r)
          else all_findings)"

text \<open>The body of the \<open>try\<close> block of \<open>scan_subscription\<close>: the scan result or the
  exception raised, and the scanners invoked.\<close>

definition scan_body ::
  "environment \<Rightarrow> string \<Rightarrow> ScanRequest option
     \<Rightarrow> (error + ScanResult) \<times> ResourceType list" where
  "scan_body env sid scan_request =
     (if \<not> validate_access env sid
      then (Inl (Exception (''No access to subscription '' @ sid)), [])
      else
        let subscription_details = get_subscription_details env sid;
            scanners_to_run = get_scanners_to_run scan_request;
            (merged, total, invoked) = fold (run_scanner env sid) scanners_to_run ([], 0, []);
            all_findings = apply_threshold scan_request merged;
            overall_risk_score = calculate_overall_risk_score all_findings;
            by_severity = get_findings_by_severity all_findings
        in (Inr \<lparr>scan_subscription_id = sid,
                  subscription_name = Option.bind subscription_details display_name,
                  scan_timestamp = utcnow env,
                  total_resources_scanned = total,
                  total_findings = int (length all_findings),
                  findings_by_severity = by_severity,
                  findings = all_findings,
                  scan_risk_score = overall_risk_score,
                  scan_duration_seconds = Some (elapsed env)\<rparr>,
            invoked))"

text \<open>
  \<open>scan_subscription\<close>: an exception of the body is caught and replaced by an empty scan
  result. The only exception the body raises is the refused access check, before
  \<open>subscription_details\<close> is bound, so the name in the replacement is \<open>None\<close>.
\<close>

definition scan_subscription ::
  "environment \<Rightarrow> string \<Rightarrow> ScanRequest option
     \<Rightarrow> (error + ScanResult) \<times> ResourceType list" where
  "scan_subscription env sid scan_request =
     (case scan_body env sid scan_request of
        (Inr scan_result, invoked) \<Rightarrow> (Inr scan_result, invoked)
      | (Inl e, invoked) \<Rightarrow>
          (Inr \<lparr>scan_subscription_id = sid,
                subscription_name = None,
                scan_timestamp = utcnow env,
                total_resources_scanned = 0,
                total_findings = 0,
                findings_by_severity = [],
                findings = [],
                scan_risk_score = 0,
                scan_duration_seconds = Some (elapsed env)\<rparr>,
           invoked))"

section \<open>The specification's formulas\<close>

text \<open>The overall score as the specification words it: sums over the severities present,
  the density factor, rounding, then the cap at 100.\<close>

definition severity_count :: "SeverityLevel \<Rightarrow> SecurityFinding list \<Rightarrow> int" where
  "severity_count s fs = int (length (filter (\<lambda>f. severity f = s) fs))"

definition severities_present :: "SecurityFinding list \<Rightarrow> SeverityLevel set" where
  "severities_present fs = severity ` set fs"

text \<open>The weights as the specification lists them: critical=100, high=75, medium=50,
  low=25, info=10.\<close>

fun spec_weight :: "SeverityLevel \<Rightarrow> int" where
  "spec_weight CRITICAL = 100"
| "spec_weight HIGH = 75"
| "spec_weight MEDIUM = 50"
| "spec_weight LOW = 25"
| "spec_weight INFO = 10"

definition spec_weighted_sum :: "SecurityFinding list \<Rightarrow> int" where
  "spec_weighted_sum fs = (\<Sum>s\<in>severities_present fs. spec_weight s * severity_count s fs)"

definition spec_total_weight :: "SecurityFinding list \<Rightarrow> int" where
  "spec_total_weight fs = (\<Sum>s\<in>severities_present fs. spec_weight s)"

definition spec_base_score :: "SecurityFinding list \<Rightarrow> rat" where
  "spec_base_score fs =
     (if spec_total_weight fs = 0 then 0
      else of_int (spec_weighted_sum fs) / of_int (spec_total_weight fs) * 100)"

definition spec_density_factor :: "SecurityFinding list \<Rightarrow> rat" where
  "spec_density_factor fs = min (3 / 2) (1 + of_nat (length fs) / 100)"

definition spec_overall_risk_score :: "SecurityFinding list \<Rightarrow> int" where
  "spec_overall_risk_score fs = min 100 (round (spec_base_score fs * spec_density_factor fs))"

section \<open>Example data\<close>

text \<open>A finding with the given severity, risk score and resource id; the other fields
  are fixed.\<close>

definition example_finding :: "SeverityLevel \<Rightarrow> int \<Rightarrow> string \<Rightarrow> SecurityFinding" where
  "example_finding s r rid =
     \<lparr>finding_id = ''f'', resource_id = rid, resource_name = ''name'',
      resource_type = STORAGE_ACCOUNT, subscription_id = ''sub-1'',
      resource_group = ''rg'', location = ''westeurope'', title = ''t'',
      description = ''d'', severity = s, recommendation = ''fix'', risk_score = r,
      metadata = [], timestamp = 0\<rparr>"

text \<open>The severity rank of the specification, low to high: info, low, medium, high,
  critical.\<close>

fun severity_rank :: "SeverityLevel \<Rightarrow> int" where
  "severity_rank INFO = 0"
| "severity_rank LOW = 1"
| "severity_rank MEDIUM = 2"
| "severity_rank HIGH = 3"
| "severity_rank CRITICAL = 4"

text \<open>The per-resource score as the specification words it: the weight of the highest
  severity by rank, times the finding-count factor, capped at 100 and truncated.\<close>

definition spec_highest_severity :: "SeverityLevel \<Rightarrow> SeverityLevel list \<Rightarrow> SeverityLevel" where
  "spec_highest_severity s ss =
     fold (\<lambda>x m. if severity_rank m < severity_rank x then x else m) ss s"

definition spec_resource_risk_score :: "SecurityFinding list \<Rightarrow> int" where
  "spec_resource_risk_score fs =
     (case map severity fs of
        [] \<Rightarrow> 0
      | s # ss \<Rightarrow>
          py_int (min 100 (of_int (severity_weights (spec_highest_severity s ss))
                           * min (3 / 2) (1 + of_nat (length fs) / 10))))"

text \<open>The priority rank of the specification: critical first.\<close>

fun priority_rank :: "SeverityLevel \<Rightarrow> int" where
  "priority_rank CRITICAL = 0"
| "priority_rank HIGH = 1"
| "priority_rank MEDIUM = 2"
| "priority_rank LOW = 3"
| "priority_rank INFO = 4"

section \<open>Outcomes of the scanners of one scan\<close>

text \<open>Whether the scanner of a resource type returns normally, and the findings it
  returns (none when it raises).\<close>

definition succeeded :: "environment \<Rightarrow> string \<Rightarrow> ResourceType \<Rightarrow> bool" where
  "succeeded env sid rt = (case scanner_scan env rt sid of Inr fs \<Rightarrow> True | Inl e \<Rightarrow> False)"

definition returned_findings ::
  "environment \<Rightarrow> string \<Rightarrow> ResourceType \<Rightarrow> SecurityFinding list" where
  "returned_findings env sid rt = (case scanner_scan env rt sid of Inr fs \<Rightarrow> fs | Inl e \<Rightarrow> [])"

text \<open>The number of distinct resource ids among some findings.\<close>

definition distinct_resources :: "SecurityFinding list \<Rightarrow> int" where
  "distinct_resources fs = int (card (resource_id ` set fs))"

text \<open>
  An example environment: subscription \<open>sub-1\<close> is accessible and no other is; the
  storage scanner returns an info finding on \<open>r0\<close> and a high finding on \<open>r1\<close>, the
  network scanner raises, the key vault scanner returns a critical finding on \<open>r2\<close>, and
  the remaining scanners return nothing. The example request selects the first three
  scanners and keeps the default threshold, low.
\<close>

definition example_scan :: "ResourceType \<Rightarrow> string \<Rightarrow> error + SecurityFinding list" where
  "example_scan rt sid =
     (case rt of
        STORAGE_ACCOUNT \<Rightarrow>
          Inr [example_finding INFO 10 ''r0'', example_finding HIGH 60 ''r1'']
      | NETWORK_SECURITY_GROUP \<Rightarrow> Inl (Exception ''network client failed'')
      | KEY_VAULT \<Rightarrow> Inr [example_finding CRITICAL 90 ''r2'']
      | _ \<Rightarrow> Inr [])"

definition example_env :: environment where
  "example_env =
     \<lparr>validate_access = (\<lambda>sid. sid = ''sub-1''),
      list_subscriptions = Inr [\<lparr>sub_id = ''sub-1'', display_name = Some ''Production''\<rparr>],
      scanner_scan = example_scan,
      utcnow = 1000,
      elapsed = 3 / 2\<rparr>"

definition example_request :: ScanRequest where
  "example_request =
     \<lparr>request_subscription_id = Some ''sub-1'',
      resource_types = Some [STORAGE_ACCOUNT, NETWORK_SECURITY_GROUP, KEY_VAULT],
      severity_threshold = LOW\<rparr>"

text \<open>The same selection with the threshold critical.\<close>

definition example_request_critical :: ScanRequest where
  "example_request_critical =
     \<lparr>request_subscription_id = Some ''sub-1'',
      resource_types = Some [STORAGE_ACCOUNT, NETWORK_SECURITY_GROUP, KEY_VAULT],
      severity_threshold = CRITICAL\<rparr>"

section \<open>The specification's trend\<close>

text \<open>A scan result with the given timestamp and risk score; the other fields are
  fixed.\<close>

definition example_result :: "int \<Rightarrow> int \<Rightarrow> ScanResult" where
  "example_result ts score =
     \<lparr>scan_subscription_id = ''sub-1'', subscription_name = None, scan_timestamp = ts,
      total_resources_scanned = 0, total_findings = 0, findings_by_severity = [],
      findings = [], scan_risk_score = score, scan_duration_seconds = None\<rparr>"

text \<open>The change in percent between two scores, and the trend of the specification with
  the change rounded to two decimal places: improving when the score decreased by more than
  5 percent, degrading when it increased by more than 5 percent, stable otherwise and when
  the previous score is 0.\<close>

definition change_percent :: "int \<Rightarrow> int \<Rightarrow> rat" where
  "change_percent current previous = of_int (current - previous) / of_int previous * 100"

definition spec_trend :: "int \<Rightarrow> int \<Rightarrow> RiskTrend" where
  "spec_trend current previous =
     \<lparr>trend = (if previous = 0 then 0 else py_round2 (change_percent current previous)),
      direction =
        (if previous = 0 then ''stable''
         else if change_percent current previous < - 5 then ''improving''
         else if 5 < change_percent current previous then ''degrading''
         else ''stable''),
      current_score = Some current,
      previous_score = Some previous\<rparr>"

section \<open>Counters and dictionaries\<close>

lemma dict_get_nonneg:
  "\<forall>(k, c) \<in> set d. (1::int) \<le> c \<Longrightarrow> 0 \<le> dict_get d x 0"
  by (auto simp: dict_get_def split: option.splits dest!: map_of_SomeD)

lemma set_update_subset: "set (AList.update k v d) \<subseteq> insert (k, v) (set d)"
  by (induction d) auto

lemma counter_add_counts:
  assumes "\<forall>(k, c) \<in> set d. (1::int) \<le> c"
  shows "\<forall>(k, c) \<in> set (counter_add x d). 1 \<le> c"
proof -
  have "0 \<le> dict_get d x 0" using assms by (rule dict_get_nonneg)
  moreover have "set (counter_add x d) \<subseteq> insert (x, dict_get d x 0 + 1) (set d)"
    unfolding counter_add_def by (rule set_update_subset)
  ultimately show ?thesis using assms by auto
qed

lemma fold_counter_add_counts:
  "\<forall>(k, c) \<in> set d. (1::int) \<le> c \<Longrightarrow> \<forall>(k, c) \<in> set (fold counter_add xs d). 1 \<le> c"
proof (induction xs arbitrary: d)
  case Nil
  then show ?case by simp
next
  case (Cons x xs)
  have "\<forall>(k, c) \<in> set (counter_add x d). 1 \<le> c"
    using Cons.prems by (rule counter_add_counts)
  then show ?case using Cons.IH by simp
qed

lemma Counter_counts: "\<forall>(k, c) \<in> set (Counter xs). 1 \<le> c"
  unfolding Counter_def by (rule fold_counter_add_counts) simp

lemma update_not_Nil: "AList.update k v d \<noteq> []"
  by (cases d) auto

lemma fold_counter_add_not_Nil: "xs \<noteq> [] \<or> d \<noteq> [] \<Longrightarrow> fold counter_add xs d \<noteq> []"
proof (induction xs arbitrary: d)
  case Nil
  then show ?case by simp
next
  case (Cons x xs)
  have "counter_add x d \<noteq> []" unfolding counter_add_def by (rule update_not_Nil)
  then show ?case using Cons.IH by simp
qed

lemma Counter_not_Nil: "xs \<noteq> [] \<Longrightarrow> Counter xs \<noteq> []"
  unfolding Counter_def by (rule fold_counter_add_not_Nil) simp

lemma fold_weight_step:
  "fold weight_step d (a, b) =
     (a + sum_list (map (\<lambda>(s, c). severity_weights s * c) d),
      b + sum_list (map (\<lambda>(s, c). severity_weights s) d))"
  by (induction d arbitrary: a b) (auto simp: weight_step_def)

lemma severity_weights_pos: "0 < severity_weights s"
  by (cases s) auto

lemma weights_le_weighted:
  "\<forall>(s, c) \<in> set d. (1::int) \<le> c \<Longrightarrow>
   sum_list (map (\<lambda>(s, c). severity_weights s) d)
     \<le> sum_list (map (\<lambda>(s, c). severity_weights s * c) d)"
proof (induction d)
  case Nil
  then show ?case by simp
next
  case (Cons p d)
  obtain s c where p: "p = (s, c)" by (cases p)
  with Cons.prems have "1 \<le> c" by simp
  then have "severity_weights s * 1 \<le> severity_weights s * c"
    using severity_weights_pos [of s] by (intro mult_left_mono) auto
  moreover have "sum_list (map (\<lambda>(s, c). severity_weights s) d)
     \<le> sum_list (map (\<lambda>(s, c). severity_weights s * c) d)"
    using Cons by simp
  ultimately show ?case using p by simp
qed

lemma total_weight_pos:
  "d \<noteq> [] \<Longrightarrow> 0 < sum_list (map (\<lambda>(s, c). severity_weights s) d)"
proof (induction d)
  case Nil
  then show ?case by simp
next
  case (Cons p d)
  obtain s c where p: "p = (s, c)" by (cases p)
  have "0 \<le> sum_list (map (\<lambda>(s, c). severity_weights s) d)"
    by (rule sum_list_nonneg) (auto simp: less_imp_le severity_weights_pos)
  then show ?case using p severity_weights_pos [of s] by simp
qed

lemma capped_score:
  fixes ws tw :: int and n :: nat
  assumes "0 < tw" "tw \<le> ws"
  shows "py_int (min 100 ((of_int ws / of_int tw) * 100 * min (3 / 2) (1 + of_nat n / 100))) = 100"
proof -
  have q: "(1::rat) \<le> of_int ws / of_int tw"
    using assms by (simp add: le_divide_eq)
  have d: "(1::rat) \<le> min (3 / 2) (1 + of_nat n / 100)"
    by simp
  define x where "x = (of_int ws / of_int tw :: rat) * min (3 / 2) (1 + of_nat n / 100)"
  have "(1::rat) * 1 \<le> x"
    unfolding x_def using q d by (intro mult_mono) auto
  moreover have "(of_int ws / of_int tw) * 100 * min (3 / 2) (1 + of_nat n / 100) = 100 * x"
    unfolding x_def by simp
  ultimately have "(100::rat) \<le> (of_int ws / of_int tw) * 100 * min (3 / 2) (1 + of_nat n / 100)"
    by simp
  then have "min 100 ((of_int ws / of_int tw) * 100 * min (3 / 2) (1 + of_nat n / 100)) = (100::rat)"
    by (simp add: min_def)
  then show ?thesis by (simp add: py_int_def)
qed

lemma overall_nonempty:
  assumes "fs \<noteq> []"
  shows "calculate_overall_risk_score fs = 100"
proof -
  let ?d = "Counter (map severity fs)"
  let ?ws = "sum_list (map (\<lambda>(s, c). severity_weights s * c) ?d)"
  let ?tw = "sum_list (map (\<lambda>(s, c). severity_weights s) ?d)"
  have ne: "?d \<noteq> []" using assms by (intro Counter_not_Nil) simp
  have tw: "0 < ?tw" using ne by (rule total_weight_pos)
  have le: "?tw \<le> ?ws" using Counter_counts by (rule weights_le_weighted)
  have f: "fold weight_step ?d (0, 0) = (?ws, ?tw)" by (simp add: fold_weight_step)
  show ?thesis
    unfolding calculate_overall_risk_score_def Let_def f
    using assms tw capped_score [OF tw le, of "length fs"] by simp
qed

lemma map_of_counter_add:
  "map_of (counter_add x d) = (map_of d)(x \<mapsto> dict_get d x 0 + 1)"
  by (simp add: counter_add_def update_conv')

lemma dict_get_counter_add:
  "dict_get (counter_add x d) k 0 = (if k = x then dict_get d x 0 + 1 else dict_get d k 0)"
  by (simp add: dict_get_def map_of_counter_add)

lemma map_of_fold_counter_add:
  "map_of (fold counter_add xs d) k =
     (if k \<in> set xs \<or> map_of d k \<noteq> None
      then Some (dict_get d k 0 + int (count_list xs k)) else None)"
proof (induction xs arbitrary: d)
  case Nil
  then show ?case by (auto simp: dict_get_def)
next
  case (Cons x xs)
  show ?case
    by (simp add: Cons.IH map_of_counter_add dict_get_counter_add)
qed

lemma map_of_Counter:
  "map_of (Counter xs) k = (if k \<in> set xs then Some (int (count_list xs k)) else None)"
  by (simp add: Counter_def map_of_fold_counter_add dict_get_def)

lemma distinct_fold_counter_add:
  "distinct (map fst d) \<Longrightarrow> distinct (map fst (fold counter_add xs d))"
  by (induction xs arbitrary: d) (simp_all add: counter_add_def distinct_update)

lemma distinct_Counter: "distinct (map fst (Counter xs))"
  by (simp add: Counter_def distinct_fold_counter_add)

lemma keys_Counter: "fst ` set (Counter xs) = set xs"
proof -
  have "dom (map_of (Counter xs)) = set xs"
    by (auto simp: map_of_Counter dom_def)
  then show ?thesis by (simp add: dom_map_of_conv_image_fst)
qed

lemma sum_list_dict:
  "distinct (map fst d) \<Longrightarrow>
   sum_list (map (\<lambda>(k, v). g k v) d) = (\<Sum>k\<in>fst ` set d. g k (the (map_of d k)))"
proof (induction d)
  case Nil
  then show ?case by simp
next
  case (Cons p d)
  obtain k v where p: "p = (k, v)" by (cases p)
  have k: "k \<notin> fst ` set d" using Cons.prems p by simp
  have "(\<Sum>k'\<in>fst ` set d. g k' (the (map_of (p # d) k')))
      = (\<Sum>k'\<in>fst ` set d. g k' (the (map_of d k')))"
    using k p by (intro sum.cong) auto
  then show ?case using Cons p k by simp
qed

lemma severity_count_count_list:
  "severity_count s fs = int (count_list (map severity fs) s)"
  by (induction fs) (auto simp: severity_count_def)

lemma severity_weights_spec: "severity_weights s = spec_weight s"
  by (cases s) simp_all

lemma spec_weight_pos: "0 < spec_weight s"
  by (cases s) simp_all

lemma weighted_sum_spec:
  "fold weight_step (Counter (map severity fs)) (0, 0) = (spec_weighted_sum fs, spec_total_weight fs)"
proof -
  let ?d = "Counter (map severity fs)"
  have keys: "fst ` set ?d = severities_present fs"
    by (simp add: keys_Counter severities_present_def)
  have "sum_list (map (\<lambda>(s, c). severity_weights s * c) ?d) = spec_weighted_sum fs"
    unfolding spec_weighted_sum_def sum_list_dict [OF distinct_Counter] keys
    by (intro sum.cong)
       (auto simp: map_of_Counter severity_count_count_list severities_present_def
          severity_weights_spec)
  moreover have "sum_list (map (\<lambda>(s, c). severity_weights s) ?d) = spec_total_weight fs"
    unfolding spec_total_weight_def sum_list_dict [OF distinct_Counter] keys
    by (simp add: severity_weights_spec)
  ultimately show ?thesis by (simp add: fold_weight_step)
qed

lemma spec_weights:
  assumes "fs \<noteq> []"
  shows "0 < spec_total_weight fs" and "spec_total_weight fs \<le> spec_weighted_sum fs"
proof -
  have fin: "finite (severities_present fs)" and ne: "severities_present fs \<noteq> {}"
    using assms by (simp_all add: severities_present_def)
  show "0 < spec_total_weight fs"
    unfolding spec_total_weight_def using fin ne
    by (intro sum_pos) (simp_all add: spec_weight_pos)
  show "spec_total_weight fs \<le> spec_weighted_sum fs"
    unfolding spec_total_weight_def spec_weighted_sum_def
  proof (rule sum_mono)
    fix s assume "s \<in> severities_present fs"
    then have "filter (\<lambda>f. severity f = s) fs \<noteq> []"
      by (auto simp: severities_present_def filter_empty_conv)
    then have "1 \<le> severity_count s fs"
      by (cases "filter (\<lambda>f. severity f = s) fs") (auto simp: severity_count_def)
    then have "spec_weight s * 1 \<le> spec_weight s * severity_count s fs"
      using spec_weight_pos [of s] by (intro mult_left_mono) auto
    then show "spec_weight s \<le> spec_weight s * severity_count s fs" by simp
  qed
qed

lemma overall_as_spec:
  "calculate_overall_risk_score fs = spec_overall_risk_score fs"
proof (cases "fs = []")
  case True
  then show ?thesis
    by (simp add: calculate_overall_risk_score_def spec_overall_risk_score_def
        spec_base_score_def spec_total_weight_def severities_present_def)
next
  case False
  note w = spec_weights [OF False]
  define x where "x = spec_base_score fs * spec_density_factor fs"
  have base: "spec_base_score fs = of_int (spec_weighted_sum fs) / of_int (spec_total_weight fs) * 100"
    using w by (simp add: spec_base_score_def)
  have code: "calculate_overall_risk_score fs = py_int (min 100 x)"
    unfolding calculate_overall_risk_score_def Let_def weighted_sum_spec x_def base
      spec_density_factor_def
    using False w by simp
  have "py_int (min 100 x) = 100"
    unfolding x_def base spec_density_factor_def
    using capped_score [OF w, of "length fs"] by simp
  moreover have "(100::rat) \<le> x"
  proof -
    define q where "q = (of_int (spec_weighted_sum fs) / of_int (spec_total_weight fs) :: rat)"
    have "1 \<le> q"
      unfolding q_def using w by (simp add: le_divide_eq)
    then have "100 \<le> q * 100" by simp
    then have "(100::rat) \<le> spec_base_score fs" unfolding base q_def .
    moreover have "(1::rat) \<le> spec_density_factor fs" by (simp add: spec_density_factor_def)
    ultimately have "(100::rat) * 1 \<le> spec_base_score fs * spec_density_factor fs"
      by (intro mult_mono) auto
    then show ?thesis by (simp add: x_def)
  qed
  then have "round (100::rat) \<le> round x" by (rule round_mono)
  then have "min 100 (round x) = 100" by simp
  ultimately show ?thesis
    using code by (simp add: spec_overall_risk_score_def x_def)
qed

section \<open>Overall risk score\<close>

text \<open>
  C1: for every sequence of findings, \<open>calculate_overall_risk_score\<close> returns
  min(100, round(baseScore * densityFactor)) with baseScore the weighted sum over the
  severities present divided by their total weight, times 100, under the weights
  critical=100, high=75, medium=50, low=25, info=10 (\<open>spec_weight\<close>), and densityFactor
  min(1.5, 1 + n/100); the weighted sum and the total weight the code accumulates are
  these sums; the result lies in [0,100]; the empty sequence yields 0; one critical
  and two high findings yield 100, where baseScore * densityFactor = (250/175 * 100) * 1.03
  exceeds 100 before the cap.
\<close>

theorem overall_risk_score_formula:
  "calculate_overall_risk_score fs = spec_overall_risk_score fs
   \<and> fold weight_step (Counter (map severity fs)) (0, 0)
       = (spec_weighted_sum fs, spec_total_weight fs)
   \<and> 0 \<le> calculate_overall_risk_score fs \<and> calculate_overall_risk_score fs \<le> 100
   \<and> calculate_overall_risk_score [] = 0
   \<and> calculate_overall_risk_score
         [example_finding CRITICAL 90 ''r1'', example_finding HIGH 70 ''r2'',
          example_finding HIGH 60 ''r3''] = 100
   \<and> spec_base_score
         [example_finding CRITICAL 90 ''r1'', example_finding HIGH 70 ''r2'',
          example_finding HIGH 60 ''r3'']
       * spec_density_factor
         [example_finding CRITICAL 90 ''r1'', example_finding HIGH 70 ''r2'',
          example_finding HIGH 60 ''r3''] = (250 / 175 * 100) * (103 / 100)"
proof -
  let ?ex = "[example_finding CRITICAL 90 ''r1'', example_finding HIGH 70 ''r2'',
              example_finding HIGH 60 ''r3'']"
  have range: "0 \<le> calculate_overall_risk_score fs \<and> calculate_overall_risk_score fs \<le> 100"
    by (cases "fs = []") (simp_all add: overall_nonempty, simp add: calculate_overall_risk_score_def)
  have empty: "calculate_overall_risk_score [] = 0"
    by (simp add: calculate_overall_risk_score_def)
  have ex: "calculate_overall_risk_score ?ex = 100"
    by (rule overall_nonempty) simp
  have pres: "severities_present ?ex = {CRITICAL, HIGH}"
    by (simp add: severities_present_def example_finding_def)
  have ws: "spec_weighted_sum ?ex = 250"
    unfolding spec_weighted_sum_def pres
    by (simp add: severity_count_def example_finding_def)
  have tw: "spec_total_weight ?ex = 175"
    unfolding spec_total_weight_def pres by simp
  have "spec_base_score ?ex * spec_density_factor ?ex = (250 / 175 * 100) * (103 / 100)"
    by (simp add: spec_base_score_def ws tw spec_density_factor_def)
  with range empty ex overall_as_spec [of fs] weighted_sum_spec [of fs]
  show ?thesis by blast
qed

text \<open>
  C2: for every non-empty sequence of findings, \<open>calculate_overall_risk_score\<close> returns
  exactly 100: every severity present has count at least 1, so the weighted sum is at least
  the total weight, the base score is at least 100 and the cap binds. The score is 0 on the
  empty sequence and 100 on every other one.
\<close>

theorem overall_risk_score_nonempty:
  "(fs \<noteq> [] \<longrightarrow>
      calculate_overall_risk_score fs = 100
      \<and> spec_total_weight fs \<le> spec_weighted_sum fs
      \<and> 100 \<le> spec_base_score fs)
   \<and> calculate_overall_risk_score fs = (if fs = [] then 0 else 100)"
proof -
  have "100 \<le> spec_base_score fs" if ne: "fs \<noteq> []"
  proof -
    note w = spec_weights [OF ne]
    define q where "q = (of_int (spec_weighted_sum fs) / of_int (spec_total_weight fs) :: rat)"
    have "1 \<le> q" unfolding q_def using w by (simp add: le_divide_eq)
    then have "100 \<le> q * 100" by simp
    moreover have "spec_base_score fs = q * 100"
      using w by (simp add: spec_base_score_def q_def)
    ultimately show ?thesis by simp
  qed
  moreover have "calculate_overall_risk_score [] = 0"
    by (simp add: calculate_overall_risk_score_def)
  ultimately show ?thesis
    using overall_nonempty [of fs] spec_weights(2) [of fs] by auto
qed

theorem overall_risk_score_nonempty_witness:
  "[example_finding INFO 5 ''r1'', example_finding LOW 20 ''r1''] \<noteq> []
   \<and> calculate_overall_risk_score
       [example_finding INFO 5 ''r1'', example_finding LOW 20 ''r1''] = 100"
  using overall_risk_score_nonempty
    [of "[example_finding INFO 5 ''r1'', example_finding LOW 20 ''r1'']"]
  by simp

section \<open>Per-resource risk score\<close>

text \<open>
  C3: the per-resource score should use the highest severity present under
  info < low < medium < high < critical. The code takes \<open>max\<close> of the severities, which
  compares their string values, so "medium" is the greatest and "critical" the least.
  For a resource with one critical and one medium finding the code returns 60
  (weight 50 of medium, factor 1.2), where the highest severity, critical, gives 100.
\<close>

theorem resource_risk_score_critical_medium:
  "calculate_resource_risk_score
     [example_finding CRITICAL 90 ''vm1'', example_finding MEDIUM 40 ''vm1''] = 60
   \<and> spec_resource_risk_score
     [example_finding CRITICAL 90 ''vm1'', example_finding MEDIUM 40 ''vm1''] = 100"
  by (simp add: calculate_resource_risk_score_def spec_resource_risk_score_def
      spec_highest_severity_def example_finding_def py_int_def)

section \<open>Severity filter\<close>

lemma severity_order_rank: "dict_get severity_order s 0 = severity_rank s"
  by (cases s) (simp_all add: dict_get_def severity_order_def)

lemma severity_rank_top: "4 \<le> severity_rank s \<longleftrightarrow> s = CRITICAL"
  by (cases s) simp_all

lemma severity_rank_nonneg: "0 \<le> severity_rank s"
  by (cases s) simp_all

text \<open>
  C6: the severity filter retains exactly the findings whose rank (info=0, low=1, medium=2,
  high=3, critical=4) is at least the threshold's rank, in their input order; at threshold
  critical it retains exactly the critical findings, and at threshold info it is the
  identity.
\<close>

theorem filter_findings_by_severity_rank:
  "filter_findings_by_severity fs t
     = filter (\<lambda>f. severity_rank t \<le> severity_rank (severity f)) fs
   \<and> filter_findings_by_severity fs CRITICAL = filter (\<lambda>f. severity f = CRITICAL) fs
   \<and> filter_findings_by_severity fs INFO = fs"
  by (simp add: filter_findings_by_severity_def severity_order_rank severity_rank_top
      severity_rank_nonneg)

section \<open>Prioritized ordering\<close>

lemma priority_key_rank: "priority_key f = (priority_rank (severity f), - risk_score f)"
  by (cases "severity f") (simp_all add: priority_key_def dict_get_def priority_order_def)

lemma priority_rank_inj: "priority_rank s = priority_rank s' \<longleftrightarrow> s = s'"
  by (cases s; cases s') simp_all

lemma sorted_map_pairs:
  "sorted (map (\<lambda>f. (a f :: int, b f :: int)) xs)
     = sorted_wrt (\<lambda>f g. a f < a g \<or> (a f = a g \<and> b f \<le> b g)) xs"
  by (induction xs) (auto simp: less_eq_prod_def)

text \<open>
  C9: \<open>prioritize_findings\<close> returns a permutation of its input, sorted ascending by
  (severity rank with critical=0, high=1, medium=2, low=3, info=4, then descending risk
  score), and it is stable: the findings of one severity and one risk score appear in their
  input order.
\<close>

theorem prioritize_findings_stable_sort:
  "mset (prioritize_findings fs) = mset fs
   \<and> sorted_wrt
        (\<lambda>f g. priority_rank (severity f) < priority_rank (severity g)
               \<or> (priority_rank (severity f) = priority_rank (severity g)
                   \<and> risk_score g \<le> risk_score f))
        (prioritize_findings fs)
   \<and> filter (\<lambda>f. severity f = s \<and> risk_score f = r) (prioritize_findings fs)
       = filter (\<lambda>f. severity f = s \<and> risk_score f = r) fs"
proof -
  have perm: "mset (prioritize_findings fs) = mset fs"
    by (simp add: prioritize_findings_def)
  have "sorted (map priority_key (prioritize_findings fs))"
    by (simp add: prioritize_findings_def)
  then have "sorted (map (\<lambda>f. (priority_rank (severity f), - risk_score f))
                 (prioritize_findings fs))"
    by (simp add: priority_key_rank [abs_def])
  then have srt: "sorted_wrt
        (\<lambda>f g. priority_rank (severity f) < priority_rank (severity g)
               \<or> (priority_rank (severity f) = priority_rank (severity g)
                   \<and> risk_score g \<le> risk_score f))
        (prioritize_findings fs)"
    by (simp add: sorted_map_pairs)
  have key: "(priority_key f = (priority_rank s, - r)) = (severity f = s \<and> risk_score f = r)"
    for f
    by (simp add: priority_key_rank priority_rank_inj)
  have "filter (\<lambda>f. priority_key f = (priority_rank s, - r)) (prioritize_findings fs)
      = filter (\<lambda>f. priority_key f = (priority_rank s, - r)) fs"
    unfolding prioritize_findings_def by (rule sort_key_stable)
  then have stab: "filter (\<lambda>f. severity f = s \<and> risk_score f = r) (prioritize_findings fs)
       = filter (\<lambda>f. severity f = s \<and> risk_score f = r) fs"
    by (simp add: key)
  from perm srt stab show ?thesis by blast
qed

section \<open>Scan orchestration\<close>

lemma run_scanner_step:
  "run_scanner env sid rt (fs, n, invoked) =
     (fs @ returned_findings env sid rt,
      n + int (length (remdups (map resource_id (returned_findings env sid rt)))),
      invoked @ [rt])"
  by (cases "scanner_scan env rt sid") (simp_all add: run_scanner_def returned_findings_def)

lemma fold_run_scanner:
  "fold (run_scanner env sid) rts (fs, n, invoked) =
     (fs @ concat (map (returned_findings env sid) rts),
      n + sum_list (map (\<lambda>rt. int (length (remdups (map resource_id
                                                  (returned_findings env sid rt))))) rts),
      invoked @ rts)"
  by (induction rts arbitrary: fs n invoked) (simp_all add: run_scanner_step)

lemma concat_succeeded:
  "concat (map (returned_findings env sid) (filter (succeeded env sid) rts))
     = concat (map (returned_findings env sid) rts)"
  by (induction rts) (auto simp: succeeded_def returned_findings_def split: sum.splits)

lemma sum_succeeded:
  "sum_list (map (\<lambda>rt. distinct_resources (returned_findings env sid rt))
               (filter (succeeded env sid) rts))
     = sum_list (map (\<lambda>rt. int (length (remdups (map resource_id
                                                 (returned_findings env sid rt))))) rts)"
proof (induction rts)
  case Nil
  then show ?case by simp
next
  case (Cons rt rts)
  have "distinct_resources fs = int (length (remdups (map resource_id fs)))" for fs
    by (simp add: distinct_resources_def length_remdups_card_conv)
  then show ?case using Cons
    by (auto simp: succeeded_def returned_findings_def split: sum.splits)
qed

lemma scan_subscription_granted:
  assumes "validate_access env sid"
  shows "scan_subscription env sid req =
     (Inr \<lparr>scan_subscription_id = sid,
           subscription_name = Option.bind (get_subscription_details env sid) display_name,
           scan_timestamp = utcnow env,
           total_resources_scanned =
             sum_list (map (\<lambda>rt. distinct_resources (returned_findings env sid rt))
                         (filter (succeeded env sid) (get_scanners_to_run req))),
           total_findings =
             int (length (apply_threshold req
                    (concat (map (returned_findings env sid)
                              (filter (succeeded env sid) (get_scanners_to_run req)))))),
           findings_by_severity =
             get_findings_by_severity (apply_threshold req
                    (concat (map (returned_findings env sid)
                              (filter (succeeded env sid) (get_scanners_to_run req))))),
           findings =
             apply_threshold req
               (concat (map (returned_findings env sid)
                         (filter (succeeded env sid) (get_scanners_to_run req)))),
           scan_risk_score =
             calculate_overall_risk_score (apply_threshold req
                    (concat (map (returned_findings env sid)
                              (filter (succeeded env sid) (get_scanners_to_run req))))),
           scan_duration_seconds = Some (elapsed env)\<rparr>,
      get_scanners_to_run req)"
  using assms
  by (simp add: scan_subscription_def scan_body_def fold_run_scanner Let_def
      concat_succeeded sum_succeeded)

lemma scan_subscription_denied:
  assumes "\<not> validate_access env sid"
  shows "scan_subscription env sid req =
     (Inr \<lparr>scan_subscription_id = sid,
           subscription_name = None,
           scan_timestamp = utcnow env,
           total_resources_scanned = 0,
           total_findings = 0,
           findings_by_severity = [],
           findings = [],
           scan_risk_score = 0,
           scan_duration_seconds = Some (elapsed env)\<rparr>,
      [])"
  using assms by (simp add: scan_subscription_def scan_body_def)

lemma example_env_fields:
  "validate_access example_env sid = (sid = ''sub-1'')"
  "scanner_scan example_env = example_scan"
  "utcnow example_env = 1000"
  "elapsed example_env = 3 / 2"
  "list_subscriptions example_env
     = Inr [\<lparr>sub_id = ''sub-1'', display_name = Some ''Production''\<rparr>]"
  by (simp_all add: example_env_def)

lemma example_scanners_to_run:
  "get_scanners_to_run (Some example_request)
     = [STORAGE_ACCOUNT, NETWORK_SECURITY_GROUP, KEY_VAULT]"
  by (simp add: get_scanners_to_run_def example_request_def scanners_def)

lemma example_outcomes:
  "succeeded example_env sid STORAGE_ACCOUNT"
  "\<not> succeeded example_env sid NETWORK_SECURITY_GROUP"
  "succeeded example_env sid KEY_VAULT"
  "returned_findings example_env sid STORAGE_ACCOUNT
     = [example_finding INFO 10 ''r0'', example_finding HIGH 60 ''r1'']"
  "returned_findings example_env sid KEY_VAULT = [example_finding CRITICAL 90 ''r2'']"
  by (simp_all add: succeeded_def returned_findings_def example_env_fields example_scan_def)

lemma example_threshold:
  "apply_threshold (Some example_request)
     [example_finding INFO 10 ''r0'', example_finding HIGH 60 ''r1'',
      example_finding CRITICAL 90 ''r2'']
   = [example_finding HIGH 60 ''r1'', example_finding CRITICAL 90 ''r2'']"
  by (simp add: apply_threshold_def example_request_def filter_findings_by_severity_def
      severity_order_rank example_finding_def)

section \<open>Refused access\<close>

text \<open>
  C4 as stated fails: for the inaccessible subscription \<open>sub-2\<close> the scan does not end in
  an error; it returns a scan result.
\<close>

theorem access_denied_returns_result:
  "\<not> validate_access example_env ''sub-2''
   \<and> scan_subscription example_env ''sub-2'' None =
       (Inr \<lparr>scan_subscription_id = ''sub-2'',
             subscription_name = None,
             scan_timestamp = 1000,
             total_resources_scanned = 0,
             total_findings = 0,
             findings_by_severity = [],
             findings = [],
             scan_risk_score = 0,
             scan_duration_seconds = Some (3 / 2)\<rparr>,
        [])"
  by (simp add: scan_subscription_def scan_body_def example_env_fields)

text \<open>
  C4, amended: for every target whose access check returns false, the body of
  \<open>scan_subscription\<close> raises before any scanner is invoked; \<open>scan_subscription\<close>
  catches the exception and returns a scan result with no findings, zero resources and
  findings, risk score 0 and an empty severity histogram. No scanner is invoked.
\<close>

theorem access_denied_empty_result:
  assumes "\<not> validate_access env sid"
  shows "scan_body env sid req = (Inl (Exception (''No access to subscription '' @ sid)), [])
   \<and> scan_subscription env sid req =
       (Inr \<lparr>scan_subscription_id = sid,
             subscription_name = None,
             scan_timestamp = utcnow env,
             total_resources_scanned = 0,
             total_findings = 0,
             findings_by_severity = [],
             findings = [],
             scan_risk_score = 0,
             scan_duration_seconds = Some (elapsed env)\<rparr>,
        [])"
  using assms scan_subscription_denied [of env sid req] by (simp add: scan_body_def)

theorem access_denied_empty_result_witness:
  "\<not> validate_access example_env ''sub-2''
   \<and> snd (scan_subscription example_env ''sub-2'' (Some example_request)) = []
   \<and> map_sum id findings (fst (scan_subscription example_env ''sub-2'' (Some example_request)))
       = Inr []"
proof -
  have h: "\<not> validate_access example_env ''sub-2''"
    by (simp add: example_env_fields)
  show ?thesis
    using h access_denied_empty_result [OF h, of "Some example_request"] by simp
qed

section \<open>Failure isolation\<close>

text \<open>
  C5 as stated fails: with the example request (threshold low), the storage scanner
  succeeds and returns an info finding and a high finding, but the scan result holds only
  the high finding and the key vault scanner's critical finding; the info finding of a
  scanner that succeeded is not in the result.
\<close>

theorem succeeded_finding_filtered:
  "succeeded example_env ''sub-1'' STORAGE_ACCOUNT
   \<and> returned_findings example_env ''sub-1'' STORAGE_ACCOUNT
       = [example_finding INFO 10 ''r0'', example_finding HIGH 60 ''r1'']
   \<and> map_sum id findings
         (fst (scan_subscription example_env ''sub-1'' (Some example_request)))
       = Inr [example_finding HIGH 60 ''r1'', example_finding CRITICAL 90 ''r2'']"
proof -
  have "validate_access example_env ''sub-1''"
    by (simp add: example_env_fields)
  then show ?thesis
    by (simp add: scan_subscription_granted example_scanners_to_run example_outcomes
        example_threshold)
qed

text \<open>
  C5, amended: for an accessible target and every selection of scanners in which some raise
  and the others return normally, \<open>scan_subscription\<close> returns a scan result, with no
  error, after invoking every selected scanner; its findings are exactly the findings of
  the scanners that succeeded, each scanner's findings in its returned order and the
  scanners in selection order, restricted to those whose severity rank (info=0, low=1,
  medium=2, high=3, critical=4) is at least the rank of the request's severity threshold.
  Without a request nothing is filtered and the findings are exactly those of the scanners
  that succeeded.
\<close>

theorem scanner_failure_isolated:
  assumes "validate_access env sid"
  shows "\<exists>r. scan_subscription env sid req = (Inr r, get_scanners_to_run req)
     \<and> findings r =
         (case req of
            None \<Rightarrow>
              concat (map (returned_findings env sid)
                        (filter (succeeded env sid) (get_scanners_to_run req)))
          | Some q \<Rightarrow>
              filter (\<lambda>f. severity_rank (severity_threshold q) \<le> severity_rank (severity f))
                (concat (map (returned_findings env sid)
                          (filter (succeeded env sid) (get_scanners_to_run req)))))
     \<and> (req = None \<longrightarrow>
          findings r =
            concat (map (returned_findings env sid)
                     (filter (succeeded env sid) (get_scanners_to_run req))))"
proof -
  have truthy: "severity_value t \<noteq> []" for t
    by (cases t) simp_all
  have "apply_threshold req xs =
         (case req of
            None \<Rightarrow> xs
          | Some q \<Rightarrow>
              filter (\<lambda>f. severity_rank (severity_threshold q) \<le> severity_rank (severity f)) xs)"
    for xs
    by (cases req)
       (simp_all add: apply_threshold_def truthy filter_findings_by_severity_def
          severity_order_rank)
  then show ?thesis
    using scan_subscription_granted [OF assms, of req]
    by (cases req) simp_all
qed

theorem scanner_failure_isolated_witness:
  "validate_access example_env ''sub-1''
   \<and> succeeded example_env ''sub-1'' STORAGE_ACCOUNT
   \<and> \<not> succeeded example_env ''sub-1'' NETWORK_SECURITY_GROUP
   \<and> succeeded example_env ''sub-1'' KEY_VAULT
   \<and> snd (scan_subscription example_env ''sub-1'' (Some example_request_critical))
       = [STORAGE_ACCOUNT, NETWORK_SECURITY_GROUP, KEY_VAULT]
   \<and> map_sum id findings
         (fst (scan_subscription example_env ''sub-1'' (Some example_request_critical)))
       = Inr [example_finding CRITICAL 90 ''r2'']"
proof -
  have h: "validate_access example_env ''sub-1''"
    by (simp add: example_env_fields)
  have sel: "get_scanners_to_run (Some example_request_critical)
      = [STORAGE_ACCOUNT, NETWORK_SECURITY_GROUP, KEY_VAULT]"
    by (simp add: get_scanners_to_run_def example_request_critical_def scanners_def)
  from scanner_failure_isolated [OF h, of "Some example_request_critical"]
  obtain r where r: "scan_subscription example_env ''sub-1'' (Some example_request_critical)
        = (Inr r, get_scanners_to_run (Some example_request_critical))"
    and f: "findings r =
         filter (\<lambda>f. severity_rank (severity_threshold example_request_critical)
                       \<le> severity_rank (severity f))
           (concat (map (returned_findings example_env ''sub-1'')
                     (filter (succeeded example_env ''sub-1'')
                        (get_scanners_to_run (Some example_request_critical)))))"
    by auto
  have "findings r = [example_finding CRITICAL 90 ''r2'']"
    unfolding f sel
    by (simp add: example_outcomes example_request_critical_def)
       (simp add: example_finding_def)
  then show ?thesis
    using h r by (simp add: sel example_outcomes)
qed

section \<open>Severity histogram\<close>

lemma keys_dict_update:
  "fst ` set other \<subseteq> fst ` set d \<Longrightarrow> map fst (dict_update d other) = map fst d"
proof (induction other arbitrary: d)
  case Nil
  then show ?case by (simp add: dict_update_def)
next
  case (Cons p other)
  obtain k v where p: "p = (k, v)" by (cases p)
  have k: "k \<in> fst ` set d" using Cons.prems p by auto
  have keys: "map fst (AList.update k v d) = map fst d"
    using k by (simp add: update_keys)
  have "fst ` set other \<subseteq> fst ` set (AList.update k v d)"
    using Cons.prems by (auto simp: dom_update)
  then have "map fst (dict_update (AList.update k v d) other) = map fst (AList.update k v d)"
    by (rule Cons.IH)
  then show ?case using p keys by (simp add: dict_update_def)
qed

lemma map_of_dict_update:
  "distinct (map fst other) \<Longrightarrow>
   map_of (dict_update d other) k
     = (case map_of other k of Some v \<Rightarrow> Some v | None \<Rightarrow> map_of d k)"
proof (induction other arbitrary: d)
  case Nil
  then show ?case by (simp add: dict_update_def)
next
  case (Cons p other)
  obtain k' v' where p: "p = (k', v')" by (cases p)
  have d: "distinct (map fst other)" and k': "map_of other k' = None"
    using Cons.prems p by (simp_all add: map_of_eq_None_iff)
  have "map_of (dict_update (AList.update k' v' d) other) k
     = (case map_of other k of Some v \<Rightarrow> Some v | None \<Rightarrow> map_of (AList.update k' v' d) k)"
    using d by (rule Cons.IH)
  then show ?case using p k'
    by (auto simp: dict_update_def update_conv' split: option.splits)
qed

lemma dict_as_map:
  assumes "distinct (map fst d)"
  shows "d = map (\<lambda>k. (k, the (map_of d k))) (map fst d)"
proof -
  have "(fst p, the (map_of d (fst p))) = p" if "p \<in> set d" for p
  proof -
    obtain k v where p: "p = (k, v)" by (cases p)
    then have "map_of d k = Some v"
      using assms that by (intro map_of_is_SomeI) simp_all
    then show ?thesis using p by simp
  qed
  then have "map (\<lambda>p. (fst p, the (map_of d (fst p)))) d = d"
    by (intro map_idI)
  then show ?thesis by (simp add: comp_def)
qed

lemma findings_by_severity_counts:
  "get_findings_by_severity fs = map (\<lambda>s. (s, severity_count s fs)) SeverityLevel_members"
proof -
  let ?c = "Counter (map severity fs)"
  let ?z = "map (\<lambda>s. (s, 0::int)) SeverityLevel_members"
  let ?h = "dict_update ?z ?c"
  have all: "s \<in> set SeverityLevel_members" for s
    by (cases s) (simp_all add: SeverityLevel_members_def)
  have "fst ` set ?c \<subseteq> fst ` set ?z"
    using all by (auto simp: image_image)
  then have keys: "map fst ?h = SeverityLevel_members"
    by (simp add: keys_dict_update comp_def)
  have dist: "distinct (map fst ?h)"
    unfolding keys by (simp add: SeverityLevel_members_def)
  have z: "map_of ?z s = Some 0" for s
    using all [of s] by (simp add: map_of_map_restrict restrict_map_def)
  have val: "the (map_of ?h s) = severity_count s fs" for s
    by (simp add: map_of_dict_update [OF distinct_Counter] map_of_Counter z
        severity_count_count_list)
  have "?h = map (\<lambda>k. (k, the (map_of ?h k))) (map fst ?h)"
    using dist by (rule dict_as_map)
  then have "?h = map (\<lambda>s. (s, severity_count s fs)) SeverityLevel_members"
    unfolding keys by (simp add: val)
  then show ?thesis by (simp add: get_findings_by_severity_def)
qed

lemma severity_counts_total:
  "severity_count CRITICAL fs + severity_count HIGH fs + severity_count MEDIUM fs
     + severity_count LOW fs + severity_count INFO fs = int (length fs)"
proof (induction fs)
  case Nil
  then show ?case by (simp add: severity_count_def)
next
  case (Cons f fs)
  then show ?case by (cases "severity f") (simp_all add: severity_count_def)
qed

text \<open>
  C7 as stated fails in its second part: the scan result returned for the inaccessible
  subscription \<open>sub-2\<close> has an empty histogram, with none of the five keys.
\<close>

theorem access_denied_histogram_empty:
  "map_sum id findings_by_severity (fst (scan_subscription example_env ''sub-2'' None))
     = Inr []"
  by (simp add: scan_subscription_def scan_body_def example_env_fields)

text \<open>
  C7, amended: for every list of findings, the histogram returned by
  \<open>get_findings_by_severity\<close> has exactly the five severity keys, with values at least 0
  that sum to the number of findings, each value the number of findings of that severity;
  and for every target whose access check succeeds, the \<open>findings_by_severity\<close> field of
  the scan result returned by \<open>scan_subscription\<close> is that histogram of the result's
  findings, so it has all five keys, zero-filled. When the access check fails the field is
  the empty dict.
\<close>

theorem findings_by_severity_histogram:
  "map fst (get_findings_by_severity fs) = [CRITICAL, HIGH, MEDIUM, LOW, INFO]
   \<and> map snd (get_findings_by_severity fs)
       = map (\<lambda>s. int (length (filter (\<lambda>f. severity f = s) fs)))
           [CRITICAL, HIGH, MEDIUM, LOW, INFO]
   \<and> list_all (\<lambda>v. 0 \<le> v) (map snd (get_findings_by_severity fs))
   \<and> sum_list (map snd (get_findings_by_severity fs)) = int (length fs)
   \<and> (\<exists>r. fst (scan_subscription env sid req) = Inr r
         \<and> (validate_access env sid \<longrightarrow>
               findings_by_severity r = get_findings_by_severity (findings r)
               \<and> map fst (findings_by_severity r) = [CRITICAL, HIGH, MEDIUM, LOW, INFO])
         \<and> (\<not> validate_access env sid \<longrightarrow> findings_by_severity r = []))"
proof -
  have keys: "map fst (get_findings_by_severity gs) = [CRITICAL, HIGH, MEDIUM, LOW, INFO]"
    for gs
    by (simp add: findings_by_severity_counts SeverityLevel_members_def)
  have vals: "map snd (get_findings_by_severity fs)
       = map (\<lambda>s. int (length (filter (\<lambda>f. severity f = s) fs)))
           [CRITICAL, HIGH, MEDIUM, LOW, INFO]"
    by (simp add: findings_by_severity_counts SeverityLevel_members_def severity_count_def)
  have nonneg: "list_all (\<lambda>v. 0 \<le> v) (map snd (get_findings_by_severity fs))"
    unfolding vals by simp
  have total: "sum_list (map snd (get_findings_by_severity fs)) = int (length fs)"
    using severity_counts_total [of fs]
    by (simp add: findings_by_severity_counts SeverityLevel_members_def)
  have scan: "\<exists>r. fst (scan_subscription env sid req) = Inr r
         \<and> (validate_access env sid \<longrightarrow>
               findings_by_severity r = get_findings_by_severity (findings r)
               \<and> map fst (findings_by_severity r) = [CRITICAL, HIGH, MEDIUM, LOW, INFO])
         \<and> (\<not> validate_access env sid \<longrightarrow> findings_by_severity r = [])"
  proof (cases "validate_access env sid")
    case True
    then show ?thesis
      by (simp add: scan_subscription_granted keys)
  next
    case False
    then show ?thesis
      by (simp add: scan_subscription_denied)
  qed
  from keys [of fs] vals nonneg total scan show ?thesis by blast
qed

theorem findings_by_severity_histogram_witness:
  "validate_access example_env ''sub-1''
   \<and> map_sum id findings_by_severity
        (fst (scan_subscription example_env ''sub-1'' (Some example_request)))
      = Inr [(CRITICAL, 1), (HIGH, 1), (MEDIUM, 0), (LOW, 0), (INFO, 0)]"
proof -
  have h: "validate_access example_env ''sub-1''"
    by (simp add: example_env_fields)
  have f: "map_sum id findings
         (fst (scan_subscription example_env ''sub-1'' (Some example_request)))
       = Inr [example_finding HIGH 60 ''r1'', example_finding CRITICAL 90 ''r2'']"
    using h
    by (simp add: scan_subscription_granted example_scanners_to_run example_outcomes
        example_threshold)
  note inst = findings_by_severity_histogram
    [where fs = "[example_finding HIGH 60 ''r1'', example_finding CRITICAL 90 ''r2'']"
       and env = example_env and sid = "''sub-1''" and req = "Some example_request"]
  from inst obtain r
    where r: "fst (scan_subscription example_env ''sub-1'' (Some example_request)) = Inr r"
      and hist: "findings_by_severity r = get_findings_by_severity (findings r)"
    using h by blast
  from inst have k: "map fst (get_findings_by_severity
              [example_finding HIGH 60 ''r1'', example_finding CRITICAL 90 ''r2''])
            = [CRITICAL, HIGH, MEDIUM, LOW, INFO]"
    and v: "map snd (get_findings_by_severity
              [example_finding HIGH 60 ''r1'', example_finding CRITICAL 90 ''r2''])
            = map (\<lambda>s. int (length (filter (\<lambda>f. severity f = s)
                     [example_finding HIGH 60 ''r1'', example_finding CRITICAL 90 ''r2''])))
                [CRITICAL, HIGH, MEDIUM, LOW, INFO]"
    by blast+
  have fr: "findings r = [example_finding HIGH 60 ''r1'', example_finding CRITICAL 90 ''r2'']"
    using f r by simp
  have "zip (map fst (get_findings_by_severity
              [example_finding HIGH 60 ''r1'', example_finding CRITICAL 90 ''r2'']))
            (map snd (get_findings_by_severity
              [example_finding HIGH 60 ''r1'', example_finding CRITICAL 90 ''r2'']))
        = [(CRITICAL, 1), (HIGH, 1), (MEDIUM, 0), (LOW, 0), (INFO, 0)]"
    unfolding k v by (simp add: example_finding_def)
  then have "get_findings_by_severity
              [example_finding HIGH 60 ''r1'', example_finding CRITICAL 90 ''r2'']
        = [(CRITICAL, 1), (HIGH, 1), (MEDIUM, 0), (LOW, 0), (INFO, 0)]"
    by (simp only: zip_map_fst_snd)
  then show ?thesis using h r hist fr by simp
qed

section \<open>Resource count\<close>

lemma set_apply_threshold: "set (apply_threshold req fs) \<subseteq> set fs"
  by (auto simp: apply_threshold_def filter_findings_by_severity_def split: option.splits)

lemma distinct_resources_mono:
  "set fs \<subseteq> set gs \<Longrightarrow> distinct_resources fs \<le> distinct_resources gs"
  unfolding distinct_resources_def
  by (simp add: card_mono image_mono)

lemma distinct_resources_append:
  "distinct_resources (fs @ gs) \<le> distinct_resources fs + distinct_resources gs"
proof -
  have "card (resource_id ` set fs \<union> resource_id ` set gs)
      \<le> card (resource_id ` set fs) + card (resource_id ` set gs)"
    by (rule card_Un_le)
  then show ?thesis by (simp add: distinct_resources_def image_Un)
qed

lemma distinct_resources_concat:
  "distinct_resources (concat (map g rts)) \<le> sum_list (map (\<lambda>rt. distinct_resources (g rt)) rts)"
proof (induction rts)
  case Nil
  then show ?case by (simp add: distinct_resources_def)
next
  case (Cons rt rts)
  have "distinct_resources (g rt @ concat (map g rts))
      \<le> distinct_resources (g rt) + distinct_resources (concat (map g rts))"
    by (rule distinct_resources_append)
  then show ?case using Cons by simp
qed

text \<open>
  C10 as stated fails: with the example request (threshold low) the scan result counts 3
  resources, \<open>r0\<close> and \<open>r1\<close> of the storage scanner and \<open>r2\<close> of the key vault scanner,
  while its filtered findings mention 2 distinct resources, \<open>r1\<close> and \<open>r2\<close>.
\<close>

theorem resources_counted_before_filter:
  "map_sum id (\<lambda>r. (total_resources_scanned r, distinct_resources (findings r)))
     (fst (scan_subscription example_env ''sub-1'' (Some example_request)))
   = Inr (3, 2)"
proof -
  have "validate_access example_env ''sub-1''"
    by (simp add: example_env_fields)
  then have "fst (scan_subscription example_env ''sub-1'' (Some example_request))
      = Inr \<lparr>scan_subscription_id = ''sub-1'',
             subscription_name =
               Option.bind (get_subscription_details example_env ''sub-1'') display_name,
             scan_timestamp = 1000,
             total_resources_scanned =
               distinct_resources
                 [example_finding INFO 10 ''r0'', example_finding HIGH 60 ''r1'']
               + distinct_resources [example_finding CRITICAL 90 ''r2''],
             total_findings = 2,
             findings_by_severity =
               get_findings_by_severity
                 [example_finding HIGH 60 ''r1'', example_finding CRITICAL 90 ''r2''],
             findings = [example_finding HIGH 60 ''r1'', example_finding CRITICAL 90 ''r2''],
             scan_risk_score =
               calculate_overall_risk_score
                 [example_finding HIGH 60 ''r1'', example_finding CRITICAL 90 ''r2''],
             scan_duration_seconds = Some (3 / 2)\<rparr>"
    by (simp add: scan_subscription_granted example_scanners_to_run example_outcomes
        example_threshold example_env_fields)
  then show ?thesis
    by (simp add: distinct_resources_def example_finding_def)
qed

text \<open>
  C10, amended: for every completed scan, the \<open>total_resources_scanned\<close> field of the
  returned scan result equals the sum, over the scanners that succeeded, of the number of
  distinct resource ids among the findings that scanner returned, counted before the severity
  filter (0 when the access check fails); it is at least the number of distinct resource
  ids in the severity-filtered findings of that scan result.
\<close>

theorem total_resources_scanned_per_scanner:
  "\<exists>r. fst (scan_subscription env sid req) = Inr r
     \<and> total_resources_scanned r =
         (if validate_access env sid
          then sum_list (map (\<lambda>rt. distinct_resources (returned_findings env sid rt))
                           (filter (succeeded env sid) (get_scanners_to_run req)))
          else 0)
     \<and> distinct_resources (findings r) \<le> total_resources_scanned r"
proof (cases "validate_access env sid")
  case True
  let ?rts = "filter (succeeded env sid) (get_scanners_to_run req)"
  have "distinct_resources (apply_threshold req (concat (map (returned_findings env sid) ?rts)))
      \<le> distinct_resources (concat (map (returned_findings env sid) ?rts))"
    by (intro distinct_resources_mono set_apply_threshold)
  also have "\<dots> \<le> sum_list (map (\<lambda>rt. distinct_resources (returned_findings env sid rt)) ?rts)"
    by (rule distinct_resources_concat)
  finally show ?thesis
    using True by (simp add: scan_subscription_granted)
next
  case False
  then show ?thesis
    by (simp add: scan_subscription_denied distinct_resources_def)
qed

section \<open>Risk trend\<close>

lemma round_half_even_cases:
  "round_half_even y = \<lfloor>y\<rfloor> \<and> y - of_int \<lfloor>y\<rfloor> < 1 / 2
   \<or> round_half_even y = \<lfloor>y\<rfloor> + 1 \<and> 1 / 2 < y - of_int \<lfloor>y\<rfloor>
   \<or> round_half_even y = \<lfloor>y\<rfloor> \<and> y - of_int \<lfloor>y\<rfloor> = 1 / 2 \<and> even \<lfloor>y\<rfloor>
   \<or> round_half_even y = \<lfloor>y\<rfloor> + 1 \<and> y - of_int \<lfloor>y\<rfloor> = 1 / 2 \<and> odd \<lfloor>y\<rfloor>"
  by (auto simp: round_half_even_def Let_def)

lemma round_half_even_gt:
  assumes "even n"
  shows "n < round_half_even y \<longleftrightarrow> of_int n + 1 / 2 < y"
proof -
  have fl: "of_int \<lfloor>y\<rfloor> \<le> y" "y < of_int \<lfloor>y\<rfloor> + 1"
    by linarith+
  consider "\<lfloor>y\<rfloor> < n" | "\<lfloor>y\<rfloor> = n" | "n < \<lfloor>y\<rfloor>"
    by linarith
  then show ?thesis
  proof cases
    case 1
    then have "\<lfloor>y\<rfloor> + 1 \<le> n" by simp
    then have "(of_int \<lfloor>y\<rfloor> :: rat) + 1 \<le> of_int n"
      by (metis of_int_1 of_int_add of_int_le_iff)
    with fl have "\<not> of_int n + 1 / 2 < y" by linarith
    moreover have "\<not> n < round_half_even y"
      using round_half_even_cases [of y] 1 by linarith
    ultimately show ?thesis by simp
  next
    case 2
    then show ?thesis
      using round_half_even_cases [of y] assms by auto
  next
    case 3
    then have "n + 1 \<le> \<lfloor>y\<rfloor>" by simp
    then have "(of_int n :: rat) + 1 \<le> of_int \<lfloor>y\<rfloor>"
      by (metis of_int_1 of_int_add of_int_le_iff)
    with fl have "of_int n + 1 / 2 < y" by linarith
    moreover have "n < round_half_even y"
      using round_half_even_cases [of y] 3 by linarith
    ultimately show ?thesis by simp
  qed
qed

lemma round_half_even_lt:
  assumes "even n"
  shows "round_half_even y < n \<longleftrightarrow> y < of_int n - 1 / 2"
proof -
  have fl: "of_int \<lfloor>y\<rfloor> \<le> y" "y < of_int \<lfloor>y\<rfloor> + 1"
    by linarith+
  consider "\<lfloor>y\<rfloor> < n - 1" | "\<lfloor>y\<rfloor> = n - 1" | "n \<le> \<lfloor>y\<rfloor>"
    by linarith
  then show ?thesis
  proof cases
    case 1
    then have "\<lfloor>y\<rfloor> + 2 \<le> n" by simp
    then have "(of_int \<lfloor>y\<rfloor> :: rat) + 2 \<le> of_int n"
      by (metis of_int_numeral of_int_add of_int_le_iff)
    with fl have "y < of_int n - 1 / 2" by linarith
    moreover have "round_half_even y < n"
      using round_half_even_cases [of y] 1 by linarith
    ultimately show ?thesis by simp
  next
    case 2
    then have o: "odd \<lfloor>y\<rfloor>" using assms by simp
    have e: "(of_int \<lfloor>y\<rfloor> :: rat) = of_int n - 1" using 2 by simp
    show ?thesis
      using round_half_even_cases [of y] o 2 unfolding e by auto
  next
    case 3
    then have "(of_int n :: rat) \<le> of_int \<lfloor>y\<rfloor>" by simp
    with fl have "\<not> y < of_int n - 1 / 2" by linarith
    moreover have "\<not> round_half_even y < n"
      using round_half_even_cases [of y] 3 by linarith
    ultimately show ?thesis by simp
  qed
qed

lemma py_round2_gt_5: "5 < py_round2 x \<longleftrightarrow> 1001 / 2 < x * 100"
proof -
  have "5 < py_round2 x \<longleftrightarrow> 500 < round_half_even (x * 100)"
    by (simp add: py_round2_def less_divide_eq)
  also have "\<dots> \<longleftrightarrow> of_int 500 + 1 / 2 < x * 100"
    by (rule round_half_even_gt) simp
  finally show ?thesis by simp
qed

lemma py_round2_lt_minus_5: "py_round2 x < - 5 \<longleftrightarrow> x * 100 < - (1001 / 2)"
proof -
  have "py_round2 x < - 5
      \<longleftrightarrow> (of_int (round_half_even (x * 100)) :: rat) < of_int (- 500)"
    by (simp add: py_round2_def divide_less_eq)
  also have "\<dots> \<longleftrightarrow> round_half_even (x * 100) < - 500"
    by (rule of_int_less_iff)
  also have "\<dots> \<longleftrightarrow> x * 100 < of_int (- 500) - 1 / 2"
    by (rule round_half_even_lt) simp
  finally show ?thesis by simp
qed

lemma change_percent_gt_5:
  assumes "0 < p"
  shows "5 < change_percent c p \<longleftrightarrow> p < 20 * (c - p)"
proof -
  have "5 < change_percent c p \<longleftrightarrow> (of_int (5 * p) :: rat) < of_int (100 * (c - p))"
    using assms by (simp add: change_percent_def less_divide_eq)
  also have "\<dots> \<longleftrightarrow> 5 * p < 100 * (c - p)" by (rule of_int_less_iff)
  finally show ?thesis by simp
qed

lemma change_percent_lt_minus_5:
  assumes "0 < p"
  shows "change_percent c p < - 5 \<longleftrightarrow> 20 * (c - p) < - p"
proof -
  have "change_percent c p < - 5 \<longleftrightarrow> (of_int (100 * (c - p)) :: rat) < of_int (- 5 * p)"
    using assms by (simp add: change_percent_def divide_less_eq)
  also have "\<dots> \<longleftrightarrow> 100 * (c - p) < - 5 * p" by (rule of_int_less_iff)
  finally show ?thesis by simp
qed

lemma rounded_change_gt_5:
  assumes "0 < p" "p \<le> 100"
  shows "5 < py_round2 (change_percent c p) \<longleftrightarrow> 5 < change_percent c p"
proof -
  have "5 < py_round2 (change_percent c p)
      \<longleftrightarrow> (of_int (1001 * p) :: rat) < of_int (20000 * (c - p))"
    using assms by (simp add: py_round2_gt_5 change_percent_def less_divide_eq)
  also have "\<dots> \<longleftrightarrow> 1001 * p < 20000 * (c - p)" by (rule of_int_less_iff)
  also have "\<dots> \<longleftrightarrow> p < 20 * (c - p)" using assms by linarith
  finally show ?thesis using assms by (simp add: change_percent_gt_5)
qed

lemma rounded_change_lt_minus_5:
  assumes "0 < p" "p \<le> 100"
  shows "py_round2 (change_percent c p) < - 5 \<longleftrightarrow> change_percent c p < - 5"
proof -
  have "py_round2 (change_percent c p) < - 5
      \<longleftrightarrow> (of_int (20000 * (c - p)) :: rat) < of_int (- 1001 * p)"
    using assms by (auto simp: py_round2_lt_minus_5 change_percent_def divide_less_eq)
  also have "\<dots> \<longleftrightarrow> 20000 * (c - p) < - 1001 * p" by (rule of_int_less_iff)
  also have "\<dots> \<longleftrightarrow> 20 * (c - p) < - p" using assms by linarith
  finally show ?thesis using assms by (simp add: change_percent_lt_minus_5)
qed

lemma two_most_recent:
  assumes "2 \<le> length rs"
  obtains cur prev rest where
    "sorted_reverse scan_timestamp rs = cur # prev # rest"
    "mset rs = mset (cur # prev # rest)"
    "scan_timestamp prev \<le> scan_timestamp cur"
    "\<forall>r\<in>set rest. scan_timestamp r \<le> scan_timestamp prev"
proof -
  let ?xs = "sorted_reverse scan_timestamp rs"
  have len: "length ?xs = length rs"
    by (simp add: sorted_reverse_def)
  then obtain cur prev rest where xs: "?xs = cur # prev # rest"
    using assms by (cases ?xs; cases "tl ?xs") auto
  have "mset ?xs = mset rs"
    by (simp add: sorted_reverse_def)
  then have m: "mset rs = mset (cur # prev # rest)"
    using xs by simp
  have "sorted (map (\<lambda>x. - scan_timestamp x) ?xs)"
    by (simp add: sorted_reverse_def)
  then have "sorted (map (\<lambda>x. - scan_timestamp x) (cur # prev # rest))"
    using xs by simp
  then have "scan_timestamp prev \<le> scan_timestamp cur"
    and "\<forall>r\<in>set rest. scan_timestamp r \<le> scan_timestamp prev"
    by auto
  with xs m show ?thesis by (rule that)
qed

lemma trend_of_two:
  assumes "2 \<le> length rs"
    and "sorted_reverse scan_timestamp rs = cur # prev # rest"
    and "0 \<le> scan_risk_score prev" "scan_risk_score prev \<le> 100"
  shows "calculate_subscription_risk_trend rs
           = spec_trend (scan_risk_score cur) (scan_risk_score prev)"
proof (cases "scan_risk_score prev = 0")
  case True
  then show ?thesis
    using assms(1,2) by (simp add: calculate_subscription_risk_trend_def spec_trend_def)
next
  case False
  define c where "c = scan_risk_score cur"
  define p where "p = scan_risk_score prev"
  have p: "0 < p" "p \<le> 100" "p \<noteq> 0"
    using False assms(3,4) by (simp_all add: p_def)
  have code: "calculate_subscription_risk_trend rs =
      \<lparr>trend = py_round2 (change_percent c p),
       direction =
         (if 5 < py_round2 (change_percent c p)
            then (if c < p then ''improving'' else ''degrading'')
          else if py_round2 (change_percent c p) < - 5
            then (if p < c then ''degrading'' else ''improving'')
          else ''stable''),
       current_score = Some c, previous_score = Some p\<rparr>"
    using assms(1,2) p(3)
    by (simp add: calculate_subscription_risk_trend_def change_percent_def c_def p_def Let_def)
  have up: "5 < change_percent c p \<Longrightarrow> \<not> c < p \<and> \<not> change_percent c p < - 5"
    using p by (simp add: change_percent_gt_5 change_percent_lt_minus_5)
  have down: "change_percent c p < - 5 \<Longrightarrow> \<not> p < c"
    using p by (simp add: change_percent_lt_minus_5)
  show ?thesis
    unfolding code rounded_change_gt_5 [OF p(1,2)] rounded_change_lt_minus_5 [OF p(1,2)]
    using p(3) up down
    by (auto simp: spec_trend_def c_def [symmetric] p_def [symmetric])
qed

text \<open>
  C8 as stated fails: the reported trend is not the change in percent itself but its
  rounding to two decimal places. From score 3 to score 4 the change is 100/3 percent and
  the reported trend is 33.33.
\<close>

theorem trend_is_rounded:
  "trend (calculate_subscription_risk_trend [example_result 1 3, example_result 2 4])
     = 3333 / 100
   \<and> change_percent 4 3 = 100 / 3
   \<and> trend (calculate_subscription_risk_trend [example_result 1 3, example_result 2 4])
       \<noteq> change_percent 4 3"
proof -
  have fl: "\<lfloor>10000 / 3 :: rat\<rfloor> = 3333"
    by (rule floor_unique) simp_all
  show ?thesis
    by (simp add: calculate_subscription_risk_trend_def sorted_reverse_def example_result_def
        py_round2_def round_half_even_def change_percent_def Let_def fl)
qed

text \<open>
  C8, amended: for scan results with risk scores in [0,100], with at least two results
  \<open>calculate_subscription_risk_trend\<close> selects the two most recent by \<open>scan_timestamp\<close>
  and returns as trend the change (current - previous) / previous * 100 rounded to two
  decimal places (0, with direction stable, when the previous score is 0); the direction is
  improving exactly when the score decreased by more than 5 percent, degrading exactly when
  it increased by more than 5 percent, and stable otherwise; with fewer than two results it
  returns trend 0 and direction stable. Previous 50 and current 40 give trend -20 and
  improving; previous 50 and current 60 give degrading; previous 50 and current 52 give
  stable.
\<close>

theorem risk_trend_rounded:
  assumes "\<forall>r\<in>set rs. 0 \<le> scan_risk_score r \<and> scan_risk_score r \<le> 100"
  shows "(length rs < 2 \<longrightarrow>
            calculate_subscription_risk_trend rs
              = \<lparr>trend = 0, direction = ''stable'',
                 current_score = None, previous_score = None\<rparr>)
     \<and> (2 \<le> length rs \<longrightarrow>
          (\<exists>cur prev rest.
              mset rs = mset (cur # prev # rest)
              \<and> scan_timestamp prev \<le> scan_timestamp cur
              \<and> (\<forall>r\<in>set rest. scan_timestamp r \<le> scan_timestamp prev)
              \<and> calculate_subscription_risk_trend rs
                  = spec_trend (scan_risk_score cur) (scan_risk_score prev)))
     \<and> calculate_subscription_risk_trend [example_result 1 50, example_result 2 40]
         = \<lparr>trend = - 20, direction = ''improving'',
            current_score = Some 40, previous_score = Some 50\<rparr>
     \<and> direction (calculate_subscription_risk_trend
                     [example_result 1 50, example_result 2 60]) = ''degrading''
     \<and> direction (calculate_subscription_risk_trend
                     [example_result 1 50, example_result 2 52]) = ''stable''"
proof -
  have few: "length rs < 2 \<longrightarrow>
            calculate_subscription_risk_trend rs
              = \<lparr>trend = 0, direction = ''stable'',
                 current_score = None, previous_score = None\<rparr>"
    by (simp add: calculate_subscription_risk_trend_def)
  have two: "\<exists>cur prev rest.
              mset rs = mset (cur # prev # rest)
              \<and> scan_timestamp prev \<le> scan_timestamp cur
              \<and> (\<forall>r\<in>set rest. scan_timestamp r \<le> scan_timestamp prev)
              \<and> calculate_subscription_risk_trend rs
                  = spec_trend (scan_risk_score cur) (scan_risk_score prev)"
    if len: "2 \<le> length rs"
  proof -
    from two_most_recent [OF len] obtain cur prev rest where
      s: "sorted_reverse scan_timestamp rs = cur # prev # rest"
      and m: "mset rs = mset (cur # prev # rest)"
      and o: "scan_timestamp prev \<le> scan_timestamp cur"
        "\<forall>r\<in>set rest. scan_timestamp r \<le> scan_timestamp prev"
      by blast
    have "prev \<in># mset rs" unfolding m by simp
    then have "prev \<in> set rs" by simp
    then have "0 \<le> scan_risk_score prev" "scan_risk_score prev \<le> 100"
      using assms by auto
    then have "calculate_subscription_risk_trend rs
                  = spec_trend (scan_risk_score cur) (scan_risk_score prev)"
      using len s by (intro trend_of_two)
    with m o show ?thesis by blast
  qed
  have e1: "calculate_subscription_risk_trend [example_result 1 50, example_result 2 40]
         = \<lparr>trend = - 20, direction = ''improving'',
            current_score = Some 40, previous_score = Some 50\<rparr>"
    by (simp add: calculate_subscription_risk_trend_def sorted_reverse_def example_result_def
        py_round2_def round_half_even_def Let_def)
  have e2: "direction (calculate_subscription_risk_trend
                     [example_result 1 50, example_result 2 60]) = ''degrading''"
    by (simp add: calculate_subscription_risk_trend_def sorted_reverse_def example_result_def
        py_round2_def round_half_even_def Let_def)
  have e3: "direction (calculate_subscription_risk_trend
                     [example_result 1 50, example_result 2 52]) = ''stable''"
    by (simp add: calculate_subscription_risk_trend_def sorted_reverse_def example_result_def
        py_round2_def round_half_even_def Let_def)
  from few two e1 e2 e3 show ?thesis by blast
qed

theorem risk_trend_rounded_witness:
  "list_all (\<lambda>r. 0 \<le> scan_risk_score r \<and> scan_risk_score r \<le> 100)
     [example_result 1 50, example_result 2 40]
   \<and> 2 \<le> length [example_result 1 50, example_result 2 40]
   \<and> (\<exists>cur prev rest.
          mset [example_result 1 50, example_result 2 40] = mset (cur # prev # rest)
          \<and> scan_timestamp prev \<le> scan_timestamp cur
          \<and> calculate_subscription_risk_trend [example_result 1 50, example_result 2 40]
              = spec_trend (scan_risk_score cur) (scan_risk_score prev))
   \<and> calculate_subscription_risk_trend [example_result 1 50, example_result 2 40]
       = \<lparr>trend = - 20, direction = ''improving'',
          current_score = Some 40, previous_score = Some 50\<rparr>"
proof -
  let ?rs = "[example_result 1 50, example_result 2 40]"
  have h: "\<forall>r\<in>set ?rs. 0 \<le> scan_risk_score r \<and> scan_risk_score r \<le> 100"
    by (simp add: example_result_def)
  have l: "list_all (\<lambda>r. 0 \<le> scan_risk_score r \<and> scan_risk_score r \<le> 100) ?rs"
    by (simp add: example_result_def)
  have n: "2 \<le> length ?rs" by simp
  from risk_trend_rounded [OF h] n l show ?thesis by blast
qed

end
